theory Spec2Isabelle
  imports Main
begin

section \<open>The values a caller can pass to DiffViewer\<close>

text \<open>
  \<open>DiffViewer\<close> is a JavaScript function: its three properties \<open>before\<close>, \<open>after\<close>
  and \<open>fileName\<close> may hold any value. The code observes a value in three ways only:
  its truthiness (\<open>!v\<close>), whether \<open>typeof v === 'string'\<close>, and what \<open>String(v)\<close>
  does. \<open>undefined\<close>, \<open>null\<close> and strings are modelled as they are; a value of any
  other type (boolean, number, bigint, symbol, object) is given by its truthiness and
  by the outcome of \<open>String(v)\<close>: the text, or the error it throws (for example
  \<open>String(Object.create(null))\<close> throws a TypeError).

  A text is a \<open>string\<close>, a list of characters; the code compares lines with
  \<open>===\<close>, which is equality of the two sequences, and looks at no character but the
  newline. Writing to the console (\<open>console.error\<close> in the \<open>catch\<close> clause) changes
  no result and is left out.
\<close>

datatype js_error =
    TypeError string
  | ReferenceError string
  | Error string

fun message :: "js_error \<Rightarrow> string" where
  "message (TypeError m) = m"
| "message (ReferenceError m) = m"
| "message (Error m) = m"

datatype jsval =
    JUndefined
  | JNull
  | JString string
  | JOther bool "js_error + string"

text \<open>\<open>!v\<close>: true exactly for the falsy values; the empty string is falsy.\<close>

fun js_not :: "jsval \<Rightarrow> bool" where
  "js_not JUndefined = True"
| "js_not JNull = True"
| "js_not (JString s) = (s = [])"
| "js_not (JOther truthy str) = (\<not> truthy)"

text \<open>\<open>String(v)\<close>; \<open>Inl\<close> is the error thrown.\<close>

fun js_String :: "jsval \<Rightarrow> js_error + string" where
  "js_String JUndefined = Inr ''undefined''"
| "js_String JNull = Inr ''null''"
| "js_String (JString s) = Inr s"
| "js_String (JOther truthy str) = str"

text \<open>\<open>typeof v === 'string' ? v : String(v)\<close>\<close>

fun to_str :: "jsval \<Rightarrow> js_error + string" where
  "to_str (JString s) = Inr s"
| "to_str v = js_String v"

section \<open>Splitting into lines\<close>

definition newline :: char where
  "newline = CHR 0x0A"


text \<open>
  \<open>text.split('\n')\<close>: the segment up to the first newline, then the split of what
  follows that newline; a text without newline is its own single segment.
\<close>

function js_split :: "string \<Rightarrow> string list" where
  "js_split s =
     (case dropWhile (\<lambda>c. c \<noteq> newline) s of
        [] \<Rightarrow> [s]
      | _ # rest \<Rightarrow> takeWhile (\<lambda>c. c \<noteq> newline) s # js_split rest)"
  by pat_completeness auto
termination
proof (relation "measure length")
  show "wf (measure length)" by simp
next
  fix s :: string and x rest
  assume "dropWhile (\<lambda>c. c \<noteq> newline) s = x # rest"
  moreover have "length (dropWhile (\<lambda>c. c \<noteq> newline) s) \<le> length s"
    by (rule length_dropWhile_le)
  ultimately show "(rest, s) \<in> measure length" by simp
qed

declare js_split.simps [simp del]

section \<open>The aligner\<close>

datatype line_type = Addition | Deletion | Context

record line =
  type :: line_type
  content :: "string option"
  oldLineNumber :: "nat option"
  newLineNumber :: "nat option"

text \<open>\<open>xs[i]\<close> on a JavaScript array: \<open>undefined\<close> (here \<open>None\<close>) out of range.\<close>

definition at :: "'a list \<Rightarrow> nat \<Rightarrow> 'a option" where
  "at xs i = (if i < length xs then Some (xs ! i) else None)"

record loop_state =
  diff :: "line list"
  oldIndex :: nat
  newIndex :: nat

text \<open>One pass through the body of the \<open>while\<close> loop of \<open>generateDiff\<close>.\<close>

definition loop_body :: "string list \<Rightarrow> string list \<Rightarrow> loop_state \<Rightarrow> loop_state" where
  "loop_body oldLines newLines s =
     (let oldLine = at oldLines (oldIndex s);
          newLine = at newLines (newIndex s)
      in
        if oldIndex s \<ge> length oldLines then
          s\<lparr>diff := diff s @
               [\<lparr>type = Addition, content = newLine,
                 oldLineNumber = None, newLineNumber = Some (newIndex s + 1)\<rparr>],
            newIndex := newIndex s + 1\<rparr>
        else if newIndex s \<ge> length newLines then
          s\<lparr>diff := diff s @
               [\<lparr>type = Deletion, content = oldLine,
                 oldLineNumber = Some (oldIndex s + 1), newLineNumber = None\<rparr>],
            oldIndex := oldIndex s + 1\<rparr>
        else if oldLine = newLine then
          s\<lparr>diff := diff s @
               [\<lparr>type = Context, content = oldLine,
                 oldLineNumber = Some (oldIndex s + 1),
                 newLineNumber = Some (newIndex s + 1)\<rparr>],
            oldIndex := oldIndex s + 1,
            newIndex := newIndex s + 1\<rparr>
        else
          (let nextOldLine = at oldLines (oldIndex s + 1);
               nextNewLine = at newLines (newIndex s + 1)
           in
             if nextOldLine = newLine then
               s\<lparr>diff := diff s @
                    [\<lparr>type = Deletion, content = oldLine,
                      oldLineNumber = Some (oldIndex s + 1), newLineNumber = None\<rparr>],
                 oldIndex := oldIndex s + 1\<rparr>
             else if nextNewLine = oldLine then
               s\<lparr>diff := diff s @
                    [\<lparr>type = Addition, content = newLine,
                      oldLineNumber = None, newLineNumber = Some (newIndex s + 1)\<rparr>],
                 newIndex := newIndex s + 1\<rparr>
             else
               s\<lparr>diff := diff s @
                    [\<lparr>type = Deletion, content = oldLine,
                      oldLineNumber = Some (oldIndex s + 1), newLineNumber = None\<rparr>,
                     \<lparr>type = Addition, content = newLine,
                      oldLineNumber = None, newLineNumber = Some (newIndex s + 1)\<rparr>],
                 oldIndex := oldIndex s + 1,
                 newIndex := newIndex s + 1\<rparr>))"

text \<open>The loop condition \<open>oldIndex < oldLines.length || newIndex < newLines.length\<close>.\<close>

definition loop_cond :: "string list \<Rightarrow> string list \<Rightarrow> loop_state \<Rightarrow> bool" where
  "loop_cond oldLines newLines s =
     (oldIndex s < length oldLines \<or> newIndex s < length newLines)"

function generateDiff_loop :: "string list \<Rightarrow> string list \<Rightarrow> loop_state \<Rightarrow> line list" where
  "generateDiff_loop oldLines newLines s =
     (if loop_cond oldLines newLines s
      then generateDiff_loop oldLines newLines (loop_body oldLines newLines s)
      else diff s)"
  by pat_completeness auto
termination
  by (relation "measure (\<lambda>(oldLines, newLines, s).
        (length oldLines - oldIndex s) + (length newLines - newIndex s))")
     (auto simp: loop_cond_def loop_body_def Let_def)

declare generateDiff_loop.simps [simp del]

definition initial_state :: loop_state where
  "initial_state = \<lparr>diff = [], oldIndex = 0, newIndex = 0\<rparr>"

definition generateDiff :: "string \<Rightarrow> string \<Rightarrow> line list" where
  "generateDiff oldText newText =
     (let oldLines = js_split oldText;
          newLines = js_split newText
      in generateDiff_loop oldLines newLines initial_state)"

section \<open>The entry point\<close>

text \<open>
  The four terminal outcomes of the component, and a fifth for an error that leaves
  \<open>DiffViewer\<close> uncaught. A diff result holds what the view shows: the file name, the
  records, and the two counts of the header (\<open>+additions -deletions\<close>).
\<close>

datatype outcome =
    InvalidInput
  | NoDifferences
  | ComputationFailed string jsval jsval
  | DiffResult jsval "line list" nat nat
  | Throws js_error

text \<open>
  The body of the \<open>try\<close> block; \<open>Inl\<close> is the error that reaches the \<open>catch\<close>
  clause. \<open>beforeStr\<close> and \<open>afterStr\<close> are constants of this block. The
  properties \<open>before\<close> and \<open>after\<close> are the parameters \<open>rawBefore\<close> and
  \<open>rawAfter\<close> here.
\<close>

definition try_block :: "jsval \<Rightarrow> jsval \<Rightarrow> jsval \<Rightarrow> js_error + outcome" where
  "try_block rawBefore rawAfter fileName =
     (case to_str rawBefore of
        Inl error \<Rightarrow> Inl error
      | Inr beforeStr \<Rightarrow>
          (case to_str rawAfter of
             Inl error \<Rightarrow> Inl error
           | Inr afterStr \<Rightarrow>
               (let diffLines = generateDiff beforeStr afterStr;
                    hasChanges = list_ex (\<lambda>line. type line \<noteq> Context) diffLines
                in
                  if \<not> hasChanges then Inr NoDifferences
                  else Inr (DiffResult fileName diffLines
                         (length (filter (\<lambda>d. type d = Addition) diffLines))
                         (length (filter (\<lambda>d. type d = Deletion) diffLines))))))"

text \<open>
  The \<open>catch\<close> clause builds its view from \<open>error.message\<close> and from the identifiers
  \<open>beforeStr\<close> and \<open>afterStr\<close>. Those two are declared with \<open>const\<close> inside the
  \<open>try\<close> block, so they are not bindings of the \<open>catch\<close> clause: there, the identifiers
  in scope are the parameters of the function and \<open>error\<close> (here a parameter of
  \<open>catch_block\<close>); the module declares no variable of these names, and it is a
  module, so nothing outside it does. Reading an identifier with no binding throws a
  ReferenceError. The first such read ends the clause.
\<close>

definition catch_scope :: "jsval \<Rightarrow> jsval \<Rightarrow> jsval \<Rightarrow> string \<rightharpoonup> jsval" where
  "catch_scope rawBefore rawAfter fileName =
     map_of [(''before'', rawBefore), (''after'', rawAfter), (''fileName'', fileName)]"

definition read_identifier :: "(string \<rightharpoonup> jsval) \<Rightarrow> string \<Rightarrow> js_error + jsval" where
  "read_identifier scope name =
     (case scope name of
        None \<Rightarrow> Inl (ReferenceError (name @ '' is not defined''))
      | Some v \<Rightarrow> Inr v)"

definition catch_block :: "jsval \<Rightarrow> jsval \<Rightarrow> jsval \<Rightarrow> js_error \<Rightarrow> outcome" where
  "catch_block rawBefore rawAfter fileName error =
     (let shown = (if message error \<noteq> [] then message error
                   else ''Unknown error occurred'')
      in
        case read_identifier (catch_scope rawBefore rawAfter fileName) ''beforeStr'' of
          Inl e \<Rightarrow> Throws e
        | Inr beforeStr \<Rightarrow>
            (case read_identifier (catch_scope rawBefore rawAfter fileName) ''afterStr'' of
               Inl e \<Rightarrow> Throws e
             | Inr afterStr \<Rightarrow> ComputationFailed shown beforeStr afterStr))"

definition DiffViewer :: "jsval \<Rightarrow> jsval \<Rightarrow> jsval \<Rightarrow> outcome" where
  "DiffViewer rawBefore rawAfter fileName =
     (if js_not rawBefore \<or> js_not rawAfter \<or> js_not fileName then InvalidInput
      else
        (case try_block rawBefore rawAfter fileName of
           Inr view \<Rightarrow> view
         | Inl error \<Rightarrow> catch_block rawBefore rawAfter fileName error))"

section \<open>Notions of the specification\<close>

text \<open>
  Rejoining lines with newlines (\<open>lines.join('\n')\<close>), the inverse the specification
  pairs with the split.
\<close>

fun join_nl :: "string list \<Rightarrow> string" where
  "join_nl [] = []"
| "join_nl [l] = l"
| "join_nl (l # l' # ls) = l @ newline # join_nl (l' # ls)"

text \<open>
  The records that stand for a line of the old document (Context and Deletion) and
  for a line of the new one (Context and Addition).
\<close>

definition old_side :: "line \<Rightarrow> bool" where
  "old_side r = (type r = Context \<or> type r = Deletion)"

definition new_side :: "line \<Rightarrow> bool" where
  "new_side r = (type r = Context \<or> type r = Addition)"

text \<open>The text of a record's content; \<open>join\<close> renders \<open>undefined\<close> as the empty text.\<close>

definition content_text :: "line \<Rightarrow> string" where
  "content_text r = (case content r of None \<Rightarrow> [] | Some l \<Rightarrow> l)"

text \<open>
  The record the loop pushes for line \<open>k\<close> of a document: an Addition of a new
  line, a Deletion of an old line, a Context record of an old line \<open>i\<close> met at the new
  position \<open>j\<close>.
\<close>

definition Addition_of :: "string list \<Rightarrow> nat \<Rightarrow> line" where
  "Addition_of newLines k =
     \<lparr>type = Addition, content = Some (newLines ! k),
      oldLineNumber = None, newLineNumber = Some (k + 1)\<rparr>"

definition Deletion_of :: "string list \<Rightarrow> nat \<Rightarrow> line" where
  "Deletion_of oldLines k =
     \<lparr>type = Deletion, content = Some (oldLines ! k),
      oldLineNumber = Some (k + 1), newLineNumber = None\<rparr>"

definition Context_of :: "string list \<Rightarrow> nat \<Rightarrow> nat \<Rightarrow> line" where
  "Context_of oldLines i j =
     \<lparr>type = Context, content = Some (oldLines ! i),
      oldLineNumber = Some (i + 1), newLineNumber = Some (j + 1)\<rparr>"

text \<open>
  The invariant of the loop: the cursors stay within the documents, the records of
  each side are the lines consumed so far with their 1-based numbers, an Addition has no
  old number and a Deletion no new one, and every record but a Context one stands for
  one consumed line (a Context record for two).
\<close>

definition loop_inv :: "string list \<Rightarrow> string list \<Rightarrow> loop_state \<Rightarrow> bool" where
  "loop_inv oldLines newLines s =
     (oldIndex s \<le> length oldLines \<and> newIndex s \<le> length newLines \<and>
      map (\<lambda>r. (content r, oldLineNumber r)) (filter old_side (diff s)) =
        map (\<lambda>k. (Some (oldLines ! k), Some (Suc k))) [0..<oldIndex s] \<and>
      map (\<lambda>r. (content r, newLineNumber r)) (filter new_side (diff s)) =
        map (\<lambda>k. (Some (newLines ! k), Some (Suc k))) [0..<newIndex s] \<and>
      list_all (\<lambda>r. (type r = Addition \<longrightarrow> oldLineNumber r = None) \<and>
                     (type r = Deletion \<longrightarrow> newLineNumber r = None)) (diff s) \<and>
      length (diff s) + length (filter (\<lambda>r. type r = Context) (diff s)) = oldIndex s + newIndex s)"

section \<open>Properties of the split\<close>

lemma js_split_Nil: "js_split [] = [[]]"
  by (simp add: js_split.simps)

lemma js_split_Cons:
  "js_split (c # cs) =
     (if c = newline then [] # js_split cs
      else (c # hd (js_split cs)) # tl (js_split cs))"
proof (cases "c = newline")
  case True
  then show ?thesis by (subst js_split.simps) simp
next
  case False
  have tail: "js_split cs =
     (case dropWhile (\<lambda>c. c \<noteq> newline) cs of
        [] \<Rightarrow> [cs]
      | _ # rest \<Rightarrow> takeWhile (\<lambda>c. c \<noteq> newline) cs # js_split rest)"
    by (rule js_split.simps)
  show ?thesis
  proof (cases "dropWhile (\<lambda>c. c \<noteq> newline) cs")
    case Nil
    show ?thesis by (subst js_split.simps) (simp add: False tail Nil)
  next
    case (Cons x rest)
    show ?thesis by (subst js_split.simps) (simp add: False tail Cons)
  qed
qed

lemma js_split_not_Nil: "js_split s \<noteq> []"
  by (cases s) (simp_all add: js_split_Nil js_split_Cons)

lemma join_nl_Cons: "ls \<noteq> [] \<Longrightarrow> join_nl (l # ls) = l @ newline # join_nl ls"
  by (cases ls) simp_all

lemma join_nl_Cons_hd: "ls \<noteq> [] \<Longrightarrow> join_nl ((c # hd ls) # tl ls) = c # join_nl ls"
  by (cases ls rule: join_nl.cases) simp_all

lemma join_split: "join_nl (js_split s) = s"
  by (induction s) (simp_all add: js_split_Nil js_split_Cons join_nl_Cons join_nl_Cons_hd js_split_not_Nil)









section \<open>Properties of the aligner\<close>

lemma loop_inv_initial: "loop_inv oldLines newLines initial_state"
  by (simp add: loop_inv_def initial_state_def)

lemma loop_inv_body:
  assumes "loop_inv oldLines newLines s" and "loop_cond oldLines newLines s"
  shows "loop_inv oldLines newLines (loop_body oldLines newLines s)"
  using assms
  by (auto simp: loop_inv_def loop_cond_def loop_body_def Let_def at_def old_side_def new_side_def)

lemma loop_rule:
  assumes "P s"
    and "\<And>t. P t \<Longrightarrow> loop_cond oldLines newLines t \<Longrightarrow> P (loop_body oldLines newLines t)"
  shows "\<exists>t. P t \<and> \<not> loop_cond oldLines newLines t \<and> generateDiff_loop oldLines newLines s = diff t"
  using assms
proof (induction oldLines newLines s rule: generateDiff_loop.induct)
  case (1 oldLines newLines s)
  show ?case
  proof (cases "loop_cond oldLines newLines s")
    case True
    then have "P (loop_body oldLines newLines s)"
      using "1.prems" by blast
    with True "1.IH" "1.prems"(2)
    have "\<exists>t. P t \<and> \<not> loop_cond oldLines newLines t \<and>
            generateDiff_loop oldLines newLines (loop_body oldLines newLines s) = diff t"
      by blast
    with True show ?thesis
      by (subst generateDiff_loop.simps) simp
  next
    case False
    with "1.prems"(1) show ?thesis
      by (subst generateDiff_loop.simps) auto
  qed
qed

lemma loop_inv_final:
  "\<exists>t. loop_inv oldLines newLines t \<and> oldIndex t = length oldLines \<and>
       newIndex t = length newLines \<and>
       generateDiff_loop oldLines newLines initial_state = diff t"
proof -
  obtain t where "loop_inv oldLines newLines t" "\<not> loop_cond oldLines newLines t"
      "generateDiff_loop oldLines newLines initial_state = diff t"
    using loop_rule [of "loop_inv oldLines newLines" initial_state oldLines newLines]
      loop_inv_initial loop_inv_body by blast
  then show ?thesis
    by (auto simp: loop_inv_def loop_cond_def)
qed

lemma aligned_old_side:
  "map (\<lambda>r. (content r, oldLineNumber r))
     (filter old_side (generateDiff_loop oldLines newLines initial_state)) =
   map (\<lambda>k. (Some (oldLines ! k), Some (Suc k))) [0..<length oldLines]"
  using loop_inv_final [of oldLines newLines] by (auto simp: loop_inv_def)

lemma aligned_new_side:
  "map (\<lambda>r. (content r, newLineNumber r))
     (filter new_side (generateDiff_loop oldLines newLines initial_state)) =
   map (\<lambda>k. (Some (newLines ! k), Some (Suc k))) [0..<length newLines]"
  using loop_inv_final [of oldLines newLines] by (auto simp: loop_inv_def)

lemma aligned_absent_numbers:
  "list_all (\<lambda>r. (type r = Addition \<longrightarrow> oldLineNumber r = None) \<and>
                  (type r = Deletion \<longrightarrow> newLineNumber r = None))
     (generateDiff_loop oldLines newLines initial_state)"
  using loop_inv_final [of oldLines newLines] by (auto simp: loop_inv_def)

lemma aligned_length:
  "length (generateDiff_loop oldLines newLines initial_state) +
   length (filter (\<lambda>r. type r = Context) (generateDiff_loop oldLines newLines initial_state)) =
   length oldLines + length newLines"
  using loop_inv_final [of oldLines newLines] by (auto simp: loop_inv_def)

lemma map_Some_nth: "map (\<lambda>k. Some (xs ! k)) [0..<length xs] = map Some xs"
proof -
  have "map (\<lambda>k. Some (xs ! k)) [0..<length xs] = map Some (map ((!) xs) [0..<length xs])"
    by simp
  then show ?thesis by (simp only: map_nth)
qed

lemma map_Some_Suc: "map (\<lambda>k. Some (Suc k)) [0..<n] = map Some [1..<Suc n]"
proof -
  have "map (\<lambda>k. Some (Suc k)) [0..<n] = map Some (map Suc [0..<n])"
    by simp
  then show ?thesis by (simp only: map_Suc_upt One_nat_def)
qed

lemma aligned_old_contents:
  "map content (filter old_side (generateDiff_loop oldLines newLines initial_state)) =
   map Some oldLines"
proof -
  have "map fst (map (\<lambda>r. (content r, oldLineNumber r))
          (filter old_side (generateDiff_loop oldLines newLines initial_state))) =
        map fst (map (\<lambda>k. (Some (oldLines ! k), Some (Suc k))) [0..<length oldLines])"
    by (simp only: aligned_old_side)
  then show ?thesis
    by (simp add: comp_def map_Some_nth)
qed

lemma aligned_old_numbers:
  "map oldLineNumber (filter old_side (generateDiff_loop oldLines newLines initial_state)) =
   map Some [1..<Suc (length oldLines)]"
proof -
  have "map snd (map (\<lambda>r. (content r, oldLineNumber r))
          (filter old_side (generateDiff_loop oldLines newLines initial_state))) =
        map snd (map (\<lambda>k. (Some (oldLines ! k), Some (Suc k))) [0..<length oldLines])"
    by (simp only: aligned_old_side)
  then show ?thesis
    by (simp add: comp_def map_Some_Suc)
qed

lemma aligned_new_contents:
  "map content (filter new_side (generateDiff_loop oldLines newLines initial_state)) =
   map Some newLines"
proof -
  have "map fst (map (\<lambda>r. (content r, newLineNumber r))
          (filter new_side (generateDiff_loop oldLines newLines initial_state))) =
        map fst (map (\<lambda>k. (Some (newLines ! k), Some (Suc k))) [0..<length newLines])"
    by (simp only: aligned_new_side)
  then show ?thesis
    by (simp add: comp_def map_Some_nth)
qed

lemma aligned_new_numbers:
  "map newLineNumber (filter new_side (generateDiff_loop oldLines newLines initial_state)) =
   map Some [1..<Suc (length newLines)]"
proof -
  have "map snd (map (\<lambda>r. (content r, newLineNumber r))
          (filter new_side (generateDiff_loop oldLines newLines initial_state))) =
        map snd (map (\<lambda>k. (Some (newLines ! k), Some (Suc k))) [0..<length newLines])"
    by (simp only: aligned_new_side)
  then show ?thesis
    by (simp add: comp_def map_Some_Suc)
qed

lemma content_text_Some: "map content rs = map Some ls \<Longrightarrow> map content_text rs = ls"
  by (induction rs arbitrary: ls) (auto simp: content_text_def)

lemma loop_old_exhausted:
  "length oldLines \<le> oldIndex s \<Longrightarrow>
   generateDiff_loop oldLines newLines s =
     diff s @ map (\<lambda>k. \<lparr>type = Addition, content = Some (newLines ! k),
                          oldLineNumber = None, newLineNumber = Some (k + 1)\<rparr>)
                [newIndex s..<length newLines]"
proof (induction oldLines newLines s rule: generateDiff_loop.induct)
  case (1 oldLines newLines s)
  show ?case
  proof (cases "newIndex s < length newLines")
    case True
    with "1.prems" have body: "loop_body oldLines newLines s =
        s\<lparr>diff := diff s @ [\<lparr>type = Addition, content = Some (newLines ! newIndex s),
               oldLineNumber = None, newLineNumber = Some (newIndex s + 1)\<rparr>],
          newIndex := newIndex s + 1\<rparr>"
      by (simp add: loop_body_def at_def)
    from True have c: "loop_cond oldLines newLines s" by (simp add: loop_cond_def)
    have "generateDiff_loop oldLines newLines s =
          generateDiff_loop oldLines newLines (loop_body oldLines newLines s)"
      using c by (subst generateDiff_loop.simps) simp
    also have "\<dots> = diff (loop_body oldLines newLines s) @
        map (\<lambda>k. \<lparr>type = Addition, content = Some (newLines ! k),
                          oldLineNumber = None, newLineNumber = Some (k + 1)\<rparr>)
                [newIndex (loop_body oldLines newLines s)..<length newLines]"
      using "1.IH" [OF c] "1.prems" by (simp add: body)
    finally show ?thesis using True by (simp add: body upt_conv_Cons)
  next
    case False
    with "1.prems" have "\<not> loop_cond oldLines newLines s" by (simp add: loop_cond_def)
    with False show ?thesis by (subst generateDiff_loop.simps) simp
  qed
qed

lemma loop_new_exhausted:
  "length newLines \<le> newIndex s \<Longrightarrow>
   generateDiff_loop oldLines newLines s =
     diff s @ map (\<lambda>k. \<lparr>type = Deletion, content = Some (oldLines ! k),
                          oldLineNumber = Some (k + 1), newLineNumber = None\<rparr>)
                [oldIndex s..<length oldLines]"
proof (induction oldLines newLines s rule: generateDiff_loop.induct)
  case (1 oldLines newLines s)
  show ?case
  proof (cases "oldIndex s < length oldLines")
    case True
    with "1.prems" have body: "loop_body oldLines newLines s =
        s\<lparr>diff := diff s @ [\<lparr>type = Deletion, content = Some (oldLines ! oldIndex s),
               oldLineNumber = Some (oldIndex s + 1), newLineNumber = None\<rparr>],
          oldIndex := oldIndex s + 1\<rparr>"
      by (simp add: loop_body_def at_def)
    from True have c: "loop_cond oldLines newLines s" by (simp add: loop_cond_def)
    have "generateDiff_loop oldLines newLines s =
          generateDiff_loop oldLines newLines (loop_body oldLines newLines s)"
      using c by (subst generateDiff_loop.simps) simp
    also have "\<dots> = diff (loop_body oldLines newLines s) @
        map (\<lambda>k. \<lparr>type = Deletion, content = Some (oldLines ! k),
                          oldLineNumber = Some (k + 1), newLineNumber = None\<rparr>)
                [oldIndex (loop_body oldLines newLines s)..<length oldLines]"
      using "1.IH" [OF c] "1.prems" by (simp add: body)
    finally show ?thesis using True by (simp add: body upt_conv_Cons)
  next
    case False
    with "1.prems" have "\<not> loop_cond oldLines newLines s" by (simp add: loop_cond_def)
    with False show ?thesis by (subst generateDiff_loop.simps) simp
  qed
qed

lemma loop_iterations:
  "\<exists>k. k \<le> (length oldLines - oldIndex s) + (length newLines - newIndex s) \<and>
       \<not> loop_cond oldLines newLines ((loop_body oldLines newLines ^^ k) s) \<and>
       (\<forall>j<k. loop_cond oldLines newLines ((loop_body oldLines newLines ^^ j) s)) \<and>
       generateDiff_loop oldLines newLines s = diff ((loop_body oldLines newLines ^^ k) s)"
proof (induction oldLines newLines s rule: generateDiff_loop.induct)
  case (1 oldLines newLines s)
  let ?body = "loop_body oldLines newLines"
  let ?m = "\<lambda>s. (length oldLines - oldIndex s) + (length newLines - newIndex s)"
  show ?case
  proof (cases "loop_cond oldLines newLines s")
    case True
    from "1.IH" [OF True] obtain k where k: "k \<le> ?m (?body s)"
        "\<not> loop_cond oldLines newLines ((?body ^^ k) (?body s))"
        "\<forall>j<k. loop_cond oldLines newLines ((?body ^^ j) (?body s))"
        "generateDiff_loop oldLines newLines (?body s) = diff ((?body ^^ k) (?body s))"
      by blast
    have dec: "?m (?body s) < ?m s"
      using True by (auto simp: loop_cond_def loop_body_def Let_def)
    have all: "\<forall>j<Suc k. loop_cond oldLines newLines ((?body ^^ j) s)"
    proof (intro allI impI)
      fix j assume "j < Suc k"
      then show "loop_cond oldLines newLines ((?body ^^ j) s)"
        using True k(3) by (cases j) (simp_all add: funpow_swap1)
    qed
    have "generateDiff_loop oldLines newLines s = diff ((?body ^^ Suc k) s)"
      using True k(4) by (subst generateDiff_loop.simps) (simp add: funpow_swap1)
    moreover have "\<not> loop_cond oldLines newLines ((?body ^^ Suc k) s)"
      using k(2) by (simp add: funpow_swap1)
    moreover have "Suc k \<le> ?m s" using k(1) dec by simp
    ultimately show ?thesis using all by blast
  next
    case False
    then have "generateDiff_loop oldLines newLines s = diff s"
      by (subst generateDiff_loop.simps) simp
    with False show ?thesis by (intro exI [of _ 0]) simp
  qed
qed

lemma aligned_contents_present:
  "list_all (\<lambda>r. content r \<noteq> None) (generateDiff_loop oldLines newLines initial_state)"
proof -
  let ?recs = "generateDiff_loop oldLines newLines initial_state"
  have "content r \<noteq> None" if r: "r \<in> set ?recs" for r
  proof (cases "old_side r")
    case True
    with r have "content r \<in> set (map content (filter old_side ?recs))" by simp
    then show ?thesis by (auto simp: aligned_old_contents)
  next
    case False
    then have "new_side r"
      by (cases "type r") (simp_all add: old_side_def new_side_def)
    with r have "content r \<in> set (map content (filter new_side ?recs))" by simp
    then show ?thesis by (auto simp: aligned_new_contents)
  qed
  then show ?thesis by (simp add: list_all_iff)
qed

text \<open>Unfolding the loop on concrete documents.\<close>

lemmas eval_loop = generateDiff_loop.simps loop_cond_def loop_body_def at_def Let_def
  initial_state_def

lemma loop_body_unequal:
  assumes "oldIndex s < length oldLines" and "newIndex s < length newLines"
    and "oldLines ! oldIndex s \<noteq> newLines ! newIndex s"
  shows "loop_body oldLines newLines s =
     (if oldIndex s + 1 < length oldLines \<and>
         oldLines ! (oldIndex s + 1) = newLines ! newIndex s then
        s\<lparr>diff := diff s @ [Deletion_of oldLines (oldIndex s)],
          oldIndex := oldIndex s + 1\<rparr>
      else if newIndex s + 1 < length newLines \<and>
         newLines ! (newIndex s + 1) = oldLines ! oldIndex s then
        s\<lparr>diff := diff s @ [Addition_of newLines (newIndex s)],
          newIndex := newIndex s + 1\<rparr>
      else
        s\<lparr>diff := diff s @ [Deletion_of oldLines (oldIndex s),
                               Addition_of newLines (newIndex s)],
          oldIndex := oldIndex s + 1,
          newIndex := newIndex s + 1\<rparr>)"
  using assms by (simp add: loop_body_def at_def Deletion_of_def Addition_of_def)

lemma loop_body_equal:
  assumes "oldIndex s < length oldLines" and "newIndex s < length newLines"
    and "oldLines ! oldIndex s = newLines ! newIndex s"
  shows "loop_body oldLines newLines s =
     s\<lparr>diff := diff s @ [Context_of oldLines (oldIndex s) (newIndex s)],
       oldIndex := oldIndex s + 1,
       newIndex := newIndex s + 1\<rparr>"
  using assms by (simp add: loop_body_def at_def Context_of_def)

lemma loop_step:
  "loop_cond oldLines newLines s \<Longrightarrow>
   generateDiff_loop oldLines newLines s =
     generateDiff_loop oldLines newLines (loop_body oldLines newLines s)"
  by (subst generateDiff_loop.simps) simp

lemma loop_step_unequal:
  assumes "oldIndex s < length oldLines" and "newIndex s < length newLines"
    and "oldLines ! oldIndex s \<noteq> newLines ! newIndex s"
  shows "generateDiff_loop oldLines newLines s =
     (if oldIndex s + 1 < length oldLines \<and>
         oldLines ! (oldIndex s + 1) = newLines ! newIndex s then
        generateDiff_loop oldLines newLines
          (s\<lparr>diff := diff s @ [Deletion_of oldLines (oldIndex s)],
             oldIndex := oldIndex s + 1\<rparr>)
      else if newIndex s + 1 < length newLines \<and>
         newLines ! (newIndex s + 1) = oldLines ! oldIndex s then
        generateDiff_loop oldLines newLines
          (s\<lparr>diff := diff s @ [Addition_of newLines (newIndex s)],
             newIndex := newIndex s + 1\<rparr>)
      else
        generateDiff_loop oldLines newLines
          (s\<lparr>diff := diff s @ [Deletion_of oldLines (oldIndex s),
                                  Addition_of newLines (newIndex s)],
             oldIndex := oldIndex s + 1,
             newIndex := newIndex s + 1\<rparr>))"
proof -
  from assms(1) have c: "loop_cond oldLines newLines s" by (simp add: loop_cond_def)
  show ?thesis
    by (subst loop_step [OF c], subst loop_body_unequal [OF assms]) simp
qed

lemma loop_step_equal:
  assumes "oldIndex s < length oldLines" and "newIndex s < length newLines"
    and "oldLines ! oldIndex s = newLines ! newIndex s"
  shows "generateDiff_loop oldLines newLines s =
     generateDiff_loop oldLines newLines
       (s\<lparr>diff := diff s @ [Context_of oldLines (oldIndex s) (newIndex s)],
          oldIndex := oldIndex s + 1,
          newIndex := newIndex s + 1\<rparr>)"
proof -
  from assms(1) have c: "loop_cond oldLines newLines s" by (simp add: loop_cond_def)
  show ?thesis
    by (subst loop_step [OF c], subst loop_body_equal [OF assms]) simp
qed

lemma loop_identical:
  "newLines = oldLines \<Longrightarrow> newIndex s = oldIndex s \<Longrightarrow>
   generateDiff_loop oldLines newLines s =
     diff s @ map (\<lambda>k. \<lparr>type = Context, content = Some (oldLines ! k),
                          oldLineNumber = Some (k + 1), newLineNumber = Some (k + 1)\<rparr>)
                [oldIndex s..<length oldLines]"
proof (induction oldLines newLines s rule: generateDiff_loop.induct)
  case (1 oldLines newLines s)
  show ?case
  proof (cases "oldIndex s < length oldLines")
    case True
    with "1.prems" have body: "loop_body oldLines newLines s =
        s\<lparr>diff := diff s @ [\<lparr>type = Context, content = Some (oldLines ! oldIndex s),
               oldLineNumber = Some (oldIndex s + 1), newLineNumber = Some (oldIndex s + 1)\<rparr>],
          oldIndex := oldIndex s + 1, newIndex := oldIndex s + 1\<rparr>"
      by (simp add: loop_body_def at_def)
    from True have c: "loop_cond oldLines newLines s" by (simp add: loop_cond_def)
    have "generateDiff_loop oldLines newLines s =
          generateDiff_loop oldLines newLines (loop_body oldLines newLines s)"
      using c by (subst generateDiff_loop.simps) simp
    also have "\<dots> = diff (loop_body oldLines newLines s) @
        map (\<lambda>k. \<lparr>type = Context, content = Some (oldLines ! k),
                          oldLineNumber = Some (k + 1), newLineNumber = Some (k + 1)\<rparr>)
                [oldIndex (loop_body oldLines newLines s)..<length oldLines]"
      using "1.IH" [OF c "1.prems"(1)] by (simp add: body)
    finally show ?thesis using True by (simp add: body upt_conv_Cons)
  next
    case False
    with "1.prems" have "\<not> loop_cond oldLines newLines s" by (simp add: loop_cond_def)
    with False show ?thesis by (subst generateDiff_loop.simps) simp
  qed
qed

lemma generateDiff_identical:
  "generateDiff x x =
     map (\<lambda>k. \<lparr>type = Context, content = Some (js_split x ! k),
                 oldLineNumber = Some (k + 1), newLineNumber = Some (k + 1)\<rparr>)
         [0..<length (js_split x)]"
  by (simp add: generateDiff_def Let_def loop_identical initial_state_def)

lemma no_changes_identical: "\<not> list_ex (\<lambda>line. type line \<noteq> Context) (generateDiff x x)"
  by (simp add: generateDiff_identical list_ex_iff)

lemma loop_body_advances:
  assumes "loop_cond oldLines newLines s"
  shows "oldIndex s \<le> oldIndex (loop_body oldLines newLines s) \<and>
         oldIndex (loop_body oldLines newLines s) \<le> oldIndex s + 1 \<and>
         newIndex s \<le> newIndex (loop_body oldLines newLines s) \<and>
         newIndex (loop_body oldLines newLines s) \<le> newIndex s + 1 \<and>
         oldIndex s + newIndex s <
           oldIndex (loop_body oldLines newLines s) + newIndex (loop_body oldLines newLines s)"
  using assms by (auto simp: loop_cond_def loop_body_def Let_def)

section \<open>Properties of the entry point\<close>

lemma length_filter_type:
  "length (filter (\<lambda>d. type d = t) recs) = count_list (map type recs) t"
  by (induction recs) simp_all

lemma DiffViewer_DiffResult:
  assumes "DiffViewer rawBefore rawAfter fileName = DiffResult name recs additions deletions"
  shows "\<exists>beforeStr afterStr. to_str rawBefore = Inr beforeStr \<and> to_str rawAfter = Inr afterStr \<and>
           name = fileName \<and> recs = generateDiff beforeStr afterStr \<and>
           additions = length (filter (\<lambda>d. type d = Addition) recs) \<and>
           deletions = length (filter (\<lambda>d. type d = Deletion) recs)"
  using assms
  by (auto simp: DiffViewer_def try_block_def Let_def catch_block_def read_identifier_def
      catch_scope_def split: if_splits sum.splits)

lemma substitution_example:
  "DiffViewer (JString (''a'' @ [newline] @ ''b'' @ [newline] @ ''c''))
              (JString (''a'' @ [newline] @ ''z'' @ [newline] @ ''c'')) (JString ''f'') =
   DiffResult (JString ''f'')
     [\<lparr>type = Context, content = Some ''a'', oldLineNumber = Some 1, newLineNumber = Some 1\<rparr>,
      \<lparr>type = Deletion, content = Some ''b'', oldLineNumber = Some 2, newLineNumber = None\<rparr>,
      \<lparr>type = Addition, content = Some ''z'', oldLineNumber = None, newLineNumber = Some 2\<rparr>,
      \<lparr>type = Context, content = Some ''c'', oldLineNumber = Some 3, newLineNumber = Some 3\<rparr>]
     1 1"
  by (simp add: DiffViewer_def try_block_def generateDiff_def js_split_Cons js_split_Nil
      newline_def eval_loop)

lemma catch_block_throws:
  "catch_block rawBefore rawAfter fileName error = Throws (ReferenceError ''beforeStr is not defined'')"
  by (simp add: catch_block_def read_identifier_def catch_scope_def)

lemma never_ComputationFailed:
  "DiffViewer rawBefore rawAfter fileName \<noteq> ComputationFailed m b a"
  by (auto simp: DiffViewer_def try_block_def catch_block_throws Let_def split: sum.splits)

section \<open>The claims\<close>

text \<open>
  C1 (reconstruction). For all texts \<open>before\<close> and \<open>after\<close>, the contents of the
  Context and Deletion records of \<open>generateDiff before after\<close>, in order and rejoined
  with newlines, are \<open>before\<close>; the contents of the Context and Addition records,
  rejoined the same way, are \<open>after\<close>. Every record carries a content.
\<close>

theorem reconstruction:
  "join_nl (map content_text (filter old_side (generateDiff oldText newText))) = oldText \<and>
   join_nl (map content_text (filter new_side (generateDiff oldText newText))) = newText \<and>
   list_all (\<lambda>r. content r \<noteq> None) (generateDiff oldText newText)"
proof (intro conjI)
  show "join_nl (map content_text (filter old_side (generateDiff oldText newText))) = oldText"
    by (simp add: generateDiff_def Let_def content_text_Some [OF aligned_old_contents] join_split)
  show "join_nl (map content_text (filter new_side (generateDiff oldText newText))) = newText"
    by (simp add: generateDiff_def Let_def content_text_Some [OF aligned_new_contents] join_split)
  show "list_all (\<lambda>r. content r \<noteq> None) (generateDiff oldText newText)"
    unfolding generateDiff_def Let_def by (rule aligned_contents_present)
qed

text \<open>
  C2 (priority order of the aligner). At a step where both cursors point at existing,
  unequal lines: if the old line after the cursor exists and equals the current new
  line, the body pushes a Deletion of the current old line and advances the old cursor
  only; else if the new line after the cursor exists and equals the current old line, it
  pushes an Addition of the current new line and advances the new cursor only; else it
  pushes a Deletion of the current old line, then an Addition of the current new line,
  and advances both cursors. Equal current lines give one Context record and advance
  both cursors. In each of these cases the loop takes that step: it goes on from the
  state so reached, as it does after every pass made while its condition holds, and it
  returns the records when the condition fails. Once the old side is exhausted the loop
  pushes the remaining new lines as Additions, and once the new side is exhausted the
  remaining old lines as Deletions.
\<close>

theorem aligner_priority_order:
  "(oldIndex s < length oldLines \<and> newIndex s < length newLines \<and>
    oldLines ! oldIndex s \<noteq> newLines ! newIndex s \<longrightarrow>
      loop_body oldLines newLines s =
        (if oldIndex s + 1 < length oldLines \<and>
            oldLines ! (oldIndex s + 1) = newLines ! newIndex s then
           s\<lparr>diff := diff s @ [Deletion_of oldLines (oldIndex s)],
             oldIndex := oldIndex s + 1\<rparr>
         else if newIndex s + 1 < length newLines \<and>
            newLines ! (newIndex s + 1) = oldLines ! oldIndex s then
           s\<lparr>diff := diff s @ [Addition_of newLines (newIndex s)],
             newIndex := newIndex s + 1\<rparr>
         else
           s\<lparr>diff := diff s @ [Deletion_of oldLines (oldIndex s),
                                  Addition_of newLines (newIndex s)],
             oldIndex := oldIndex s + 1,
             newIndex := newIndex s + 1\<rparr>) \<and>
      generateDiff_loop oldLines newLines s =
        (if oldIndex s + 1 < length oldLines \<and>
            oldLines ! (oldIndex s + 1) = newLines ! newIndex s then
           generateDiff_loop oldLines newLines
             (s\<lparr>diff := diff s @ [Deletion_of oldLines (oldIndex s)],
                oldIndex := oldIndex s + 1\<rparr>)
         else if newIndex s + 1 < length newLines \<and>
            newLines ! (newIndex s + 1) = oldLines ! oldIndex s then
           generateDiff_loop oldLines newLines
             (s\<lparr>diff := diff s @ [Addition_of newLines (newIndex s)],
                newIndex := newIndex s + 1\<rparr>)
         else
           generateDiff_loop oldLines newLines
             (s\<lparr>diff := diff s @ [Deletion_of oldLines (oldIndex s),
                                     Addition_of newLines (newIndex s)],
                oldIndex := oldIndex s + 1,
                newIndex := newIndex s + 1\<rparr>))) \<and>
   (oldIndex s < length oldLines \<and> newIndex s < length newLines \<and>
    oldLines ! oldIndex s = newLines ! newIndex s \<longrightarrow>
      loop_body oldLines newLines s =
        s\<lparr>diff := diff s @ [Context_of oldLines (oldIndex s) (newIndex s)],
          oldIndex := oldIndex s + 1,
          newIndex := newIndex s + 1\<rparr> \<and>
      generateDiff_loop oldLines newLines s =
        generateDiff_loop oldLines newLines
          (s\<lparr>diff := diff s @ [Context_of oldLines (oldIndex s) (newIndex s)],
          oldIndex := oldIndex s + 1,
          newIndex := newIndex s + 1\<rparr>)) \<and>
   (length oldLines \<le> oldIndex s \<longrightarrow>
      generateDiff_loop oldLines newLines s =
        diff s @ map (Addition_of newLines) [newIndex s..<length newLines]) \<and>
   (length newLines \<le> newIndex s \<longrightarrow>
      generateDiff_loop oldLines newLines s =
        diff s @ map (Deletion_of oldLines) [oldIndex s..<length oldLines]) \<and>
   (loop_cond oldLines newLines s \<longrightarrow>
      generateDiff_loop oldLines newLines s =
        generateDiff_loop oldLines newLines (loop_body oldLines newLines s)) \<and>
   (\<not> loop_cond oldLines newLines s \<longrightarrow>
      generateDiff_loop oldLines newLines s = diff s)"
proof (intro conjI impI)
  assume a: "oldIndex s < length oldLines \<and> newIndex s < length newLines \<and>
    oldLines ! oldIndex s \<noteq> newLines ! newIndex s"
  then show "loop_body oldLines newLines s =
        (if oldIndex s + 1 < length oldLines \<and>
            oldLines ! (oldIndex s + 1) = newLines ! newIndex s then
           s\<lparr>diff := diff s @ [Deletion_of oldLines (oldIndex s)],
             oldIndex := oldIndex s + 1\<rparr>
         else if newIndex s + 1 < length newLines \<and>
            newLines ! (newIndex s + 1) = oldLines ! oldIndex s then
           s\<lparr>diff := diff s @ [Addition_of newLines (newIndex s)],
             newIndex := newIndex s + 1\<rparr>
         else
           s\<lparr>diff := diff s @ [Deletion_of oldLines (oldIndex s),
                                  Addition_of newLines (newIndex s)],
             oldIndex := oldIndex s + 1,
             newIndex := newIndex s + 1\<rparr>)"
    using loop_body_unequal by blast
  from a show "generateDiff_loop oldLines newLines s =
        (if oldIndex s + 1 < length oldLines \<and>
            oldLines ! (oldIndex s + 1) = newLines ! newIndex s then
           generateDiff_loop oldLines newLines
             (s\<lparr>diff := diff s @ [Deletion_of oldLines (oldIndex s)],
                oldIndex := oldIndex s + 1\<rparr>)
         else if newIndex s + 1 < length newLines \<and>
            newLines ! (newIndex s + 1) = oldLines ! oldIndex s then
           generateDiff_loop oldLines newLines
             (s\<lparr>diff := diff s @ [Addition_of newLines (newIndex s)],
                newIndex := newIndex s + 1\<rparr>)
         else
           generateDiff_loop oldLines newLines
             (s\<lparr>diff := diff s @ [Deletion_of oldLines (oldIndex s),
                                     Addition_of newLines (newIndex s)],
                oldIndex := oldIndex s + 1,
                newIndex := newIndex s + 1\<rparr>))"
    using loop_step_unequal by blast
next
  assume a: "oldIndex s < length oldLines \<and> newIndex s < length newLines \<and>
    oldLines ! oldIndex s = newLines ! newIndex s"
  then show "loop_body oldLines newLines s =
        s\<lparr>diff := diff s @ [Context_of oldLines (oldIndex s) (newIndex s)],
          oldIndex := oldIndex s + 1,
          newIndex := newIndex s + 1\<rparr>"
    using loop_body_equal by blast
  from a show "generateDiff_loop oldLines newLines s =
        generateDiff_loop oldLines newLines
          (s\<lparr>diff := diff s @ [Context_of oldLines (oldIndex s) (newIndex s)],
          oldIndex := oldIndex s + 1,
          newIndex := newIndex s + 1\<rparr>)"
    using loop_step_equal by blast
next
  assume "length oldLines \<le> oldIndex s"
  then show "generateDiff_loop oldLines newLines s =
        diff s @ map (Addition_of newLines) [newIndex s..<length newLines]"
    by (simp add: loop_old_exhausted Addition_of_def [abs_def])
next
  assume "length newLines \<le> newIndex s"
  then show "generateDiff_loop oldLines newLines s =
        diff s @ map (Deletion_of oldLines) [oldIndex s..<length oldLines]"
    by (simp add: loop_new_exhausted Deletion_of_def [abs_def])
next
  assume "loop_cond oldLines newLines s"
  then show "generateDiff_loop oldLines newLines s =
        generateDiff_loop oldLines newLines (loop_body oldLines newLines s)"
    by (rule loop_step)
next
  assume "\<not> loop_cond oldLines newLines s"
  then show "generateDiff_loop oldLines newLines s = diff s"
    by (subst generateDiff_loop.simps) simp
qed

theorem aligner_priority_order_witness:
  "loop_body [''a'', ''x'', ''b''] [''a'', ''b'']
     \<lparr>diff = [], oldIndex = 1, newIndex = 1\<rparr> =
     \<lparr>diff = [\<lparr>type = Deletion, content = Some ''x'', oldLineNumber = Some 2, newLineNumber = None\<rparr>], oldIndex = 2, newIndex = 1\<rparr> \<and>
   generateDiff_loop [''a'', ''x'', ''b''] [''a'', ''b'']
     \<lparr>diff = [], oldIndex = 1, newIndex = 1\<rparr> =
     [\<lparr>type = Deletion, content = Some ''x'', oldLineNumber = Some 2, newLineNumber = None\<rparr>,
      \<lparr>type = Context, content = Some ''b'', oldLineNumber = Some 3, newLineNumber = Some 2\<rparr>] \<and>
   loop_body [''a'', ''b''] [''a'', ''x'', ''b'']
     \<lparr>diff = [], oldIndex = 1, newIndex = 1\<rparr> =
     \<lparr>diff = [\<lparr>type = Addition, content = Some ''x'', oldLineNumber = None, newLineNumber = Some 2\<rparr>], oldIndex = 1, newIndex = 2\<rparr> \<and>
   generateDiff_loop [''a'', ''b''] [''a'', ''x'', ''b'']
     \<lparr>diff = [], oldIndex = 1, newIndex = 1\<rparr> =
     [\<lparr>type = Addition, content = Some ''x'', oldLineNumber = None, newLineNumber = Some 2\<rparr>,
      \<lparr>type = Context, content = Some ''b'', oldLineNumber = Some 2, newLineNumber = Some 3\<rparr>] \<and>
   loop_body [''a'', ''b'', ''c''] [''a'', ''z'', ''c'']
     \<lparr>diff = [], oldIndex = 1, newIndex = 1\<rparr> =
     \<lparr>diff = [\<lparr>type = Deletion, content = Some ''b'', oldLineNumber = Some 2, newLineNumber = None\<rparr>,
          \<lparr>type = Addition, content = Some ''z'', oldLineNumber = None, newLineNumber = Some 2\<rparr>], oldIndex = 2, newIndex = 2\<rparr> \<and>
   generateDiff_loop [''a'', ''b'', ''c''] [''a'', ''z'', ''c'']
     \<lparr>diff = [], oldIndex = 1, newIndex = 1\<rparr> =
     [\<lparr>type = Deletion, content = Some ''b'', oldLineNumber = Some 2, newLineNumber = None\<rparr>,
      \<lparr>type = Addition, content = Some ''z'', oldLineNumber = None, newLineNumber = Some 2\<rparr>,
      \<lparr>type = Context, content = Some ''c'', oldLineNumber = Some 3, newLineNumber = Some 3\<rparr>] \<and>
   loop_body [''a'', ''b''] [''a'', ''x'', ''b'']
     \<lparr>diff = [], oldIndex = 0, newIndex = 0\<rparr> =
     \<lparr>diff = [\<lparr>type = Context, content = Some ''a'', oldLineNumber = Some 1, newLineNumber = Some 1\<rparr>], oldIndex = 1, newIndex = 1\<rparr> \<and>
   generateDiff_loop [''a'', ''b''] [''a'', ''x'', ''b'']
     \<lparr>diff = [], oldIndex = 0, newIndex = 0\<rparr> =
     [\<lparr>type = Context, content = Some ''a'', oldLineNumber = Some 1, newLineNumber = Some 1\<rparr>,
      \<lparr>type = Addition, content = Some ''x'', oldLineNumber = None, newLineNumber = Some 2\<rparr>,
      \<lparr>type = Context, content = Some ''b'', oldLineNumber = Some 2, newLineNumber = Some 3\<rparr>] \<and>
   generateDiff_loop [''a''] [''a'', ''b'', ''c'']
     \<lparr>diff = [], oldIndex = 1, newIndex = 1\<rparr> =
     [\<lparr>type = Addition, content = Some ''b'', oldLineNumber = None, newLineNumber = Some 2\<rparr>,
      \<lparr>type = Addition, content = Some ''c'', oldLineNumber = None, newLineNumber = Some 3\<rparr>] \<and>
   generateDiff_loop [''a'', ''b'', ''c''] [''a'']
     \<lparr>diff = [], oldIndex = 1, newIndex = 1\<rparr> =
     [\<lparr>type = Deletion, content = Some ''b'', oldLineNumber = Some 2, newLineNumber = None\<rparr>,
      \<lparr>type = Deletion, content = Some ''c'', oldLineNumber = Some 3, newLineNumber = None\<rparr>]"
proof -
  let ?axb = "[''a'', ''x'', ''b'']" and ?ab = "[''a'', ''b'']"
  let ?abc = "[''a'', ''b'', ''c'']" and ?azc = "[''a'', ''z'', ''c'']"
  let ?a = "[''a'']"
  note d = Addition_of_def Deletion_of_def Context_of_def
  note step = aligner_priority_order
  have deletion_0:
    "loop_body ?axb ?ab
       \<lparr>diff = [], oldIndex = 1, newIndex = 1\<rparr> =
       \<lparr>diff = [\<lparr>type = Deletion, content = Some ''x'', oldLineNumber = Some 2, newLineNumber = None\<rparr>], oldIndex = 2, newIndex = 1\<rparr>"
    "generateDiff_loop ?axb ?ab
       \<lparr>diff = [], oldIndex = 1, newIndex = 1\<rparr> =
     generateDiff_loop ?axb ?ab
       \<lparr>diff = [\<lparr>type = Deletion, content = Some ''x'', oldLineNumber = Some 2, newLineNumber = None\<rparr>], oldIndex = 2, newIndex = 1\<rparr>"
    using step [of "\<lparr>diff = [], oldIndex = 1, newIndex = 1\<rparr>"
      ?axb ?ab]
    by (simp_all add: d eval_nat_numeral)
  have deletion_1:
    "generateDiff_loop ?axb ?ab
       \<lparr>diff = [\<lparr>type = Deletion, content = Some ''x'', oldLineNumber = Some 2, newLineNumber = None\<rparr>], oldIndex = 2, newIndex = 1\<rparr> =
     generateDiff_loop ?axb ?ab
       \<lparr>diff = [\<lparr>type = Deletion, content = Some ''x'', oldLineNumber = Some 2, newLineNumber = None\<rparr>,
              \<lparr>type = Context, content = Some ''b'', oldLineNumber = Some 3, newLineNumber = Some 2\<rparr>], oldIndex = 3, newIndex = 2\<rparr>"
    using step [of "\<lparr>diff = [\<lparr>type = Deletion, content = Some ''x'', oldLineNumber = Some 2, newLineNumber = None\<rparr>], oldIndex = 2, newIndex = 1\<rparr>"
      ?axb ?ab]
    by (simp add: d eval_nat_numeral)
  have deletion_end:
    "generateDiff_loop ?axb ?ab
       \<lparr>diff = [\<lparr>type = Deletion, content = Some ''x'', oldLineNumber = Some 2, newLineNumber = None\<rparr>,
              \<lparr>type = Context, content = Some ''b'', oldLineNumber = Some 3, newLineNumber = Some 2\<rparr>], oldIndex = 3, newIndex = 2\<rparr> =
     [\<lparr>type = Deletion, content = Some ''x'', oldLineNumber = Some 2, newLineNumber = None\<rparr>,
      \<lparr>type = Context, content = Some ''b'', oldLineNumber = Some 3, newLineNumber = Some 2\<rparr>]"
    using step [of "\<lparr>diff = [\<lparr>type = Deletion, content = Some ''x'', oldLineNumber = Some 2, newLineNumber = None\<rparr>,
              \<lparr>type = Context, content = Some ''b'', oldLineNumber = Some 3, newLineNumber = Some 2\<rparr>], oldIndex = 3, newIndex = 2\<rparr>"
      ?axb ?ab]
    by (simp add: d loop_cond_def eval_nat_numeral)
  have addition_0:
    "loop_body ?ab ?axb
       \<lparr>diff = [], oldIndex = 1, newIndex = 1\<rparr> =
       \<lparr>diff = [\<lparr>type = Addition, content = Some ''x'', oldLineNumber = None, newLineNumber = Some 2\<rparr>], oldIndex = 1, newIndex = 2\<rparr>"
    "generateDiff_loop ?ab ?axb
       \<lparr>diff = [], oldIndex = 1, newIndex = 1\<rparr> =
     generateDiff_loop ?ab ?axb
       \<lparr>diff = [\<lparr>type = Addition, content = Some ''x'', oldLineNumber = None, newLineNumber = Some 2\<rparr>], oldIndex = 1, newIndex = 2\<rparr>"
    using step [of "\<lparr>diff = [], oldIndex = 1, newIndex = 1\<rparr>"
      ?ab ?axb]
    by (simp_all add: d eval_nat_numeral)
  have addition_1:
    "generateDiff_loop ?ab ?axb
       \<lparr>diff = [\<lparr>type = Addition, content = Some ''x'', oldLineNumber = None, newLineNumber = Some 2\<rparr>], oldIndex = 1, newIndex = 2\<rparr> =
     generateDiff_loop ?ab ?axb
       \<lparr>diff = [\<lparr>type = Addition, content = Some ''x'', oldLineNumber = None, newLineNumber = Some 2\<rparr>,
              \<lparr>type = Context, content = Some ''b'', oldLineNumber = Some 2, newLineNumber = Some 3\<rparr>], oldIndex = 2, newIndex = 3\<rparr>"
    using step [of "\<lparr>diff = [\<lparr>type = Addition, content = Some ''x'', oldLineNumber = None, newLineNumber = Some 2\<rparr>], oldIndex = 1, newIndex = 2\<rparr>"
      ?ab ?axb]
    by (simp add: d eval_nat_numeral)
  have addition_end:
    "generateDiff_loop ?ab ?axb
       \<lparr>diff = [\<lparr>type = Addition, content = Some ''x'', oldLineNumber = None, newLineNumber = Some 2\<rparr>,
              \<lparr>type = Context, content = Some ''b'', oldLineNumber = Some 2, newLineNumber = Some 3\<rparr>], oldIndex = 2, newIndex = 3\<rparr> =
     [\<lparr>type = Addition, content = Some ''x'', oldLineNumber = None, newLineNumber = Some 2\<rparr>,
      \<lparr>type = Context, content = Some ''b'', oldLineNumber = Some 2, newLineNumber = Some 3\<rparr>]"
    using step [of "\<lparr>diff = [\<lparr>type = Addition, content = Some ''x'', oldLineNumber = None, newLineNumber = Some 2\<rparr>,
              \<lparr>type = Context, content = Some ''b'', oldLineNumber = Some 2, newLineNumber = Some 3\<rparr>], oldIndex = 2, newIndex = 3\<rparr>"
      ?ab ?axb]
    by (simp add: d loop_cond_def eval_nat_numeral)
  have substitution_0:
    "loop_body ?abc ?azc
       \<lparr>diff = [], oldIndex = 1, newIndex = 1\<rparr> =
       \<lparr>diff = [\<lparr>type = Deletion, content = Some ''b'', oldLineNumber = Some 2, newLineNumber = None\<rparr>,
              \<lparr>type = Addition, content = Some ''z'', oldLineNumber = None, newLineNumber = Some 2\<rparr>], oldIndex = 2, newIndex = 2\<rparr>"
    "generateDiff_loop ?abc ?azc
       \<lparr>diff = [], oldIndex = 1, newIndex = 1\<rparr> =
     generateDiff_loop ?abc ?azc
       \<lparr>diff = [\<lparr>type = Deletion, content = Some ''b'', oldLineNumber = Some 2, newLineNumber = None\<rparr>,
              \<lparr>type = Addition, content = Some ''z'', oldLineNumber = None, newLineNumber = Some 2\<rparr>], oldIndex = 2, newIndex = 2\<rparr>"
    using step [of "\<lparr>diff = [], oldIndex = 1, newIndex = 1\<rparr>"
      ?abc ?azc]
    by (simp_all add: d eval_nat_numeral)
  have substitution_1:
    "generateDiff_loop ?abc ?azc
       \<lparr>diff = [\<lparr>type = Deletion, content = Some ''b'', oldLineNumber = Some 2, newLineNumber = None\<rparr>,
              \<lparr>type = Addition, content = Some ''z'', oldLineNumber = None, newLineNumber = Some 2\<rparr>], oldIndex = 2, newIndex = 2\<rparr> =
     generateDiff_loop ?abc ?azc
       \<lparr>diff = [\<lparr>type = Deletion, content = Some ''b'', oldLineNumber = Some 2, newLineNumber = None\<rparr>,
              \<lparr>type = Addition, content = Some ''z'', oldLineNumber = None, newLineNumber = Some 2\<rparr>,
              \<lparr>type = Context, content = Some ''c'', oldLineNumber = Some 3, newLineNumber = Some 3\<rparr>], oldIndex = 3, newIndex = 3\<rparr>"
    using step [of "\<lparr>diff = [\<lparr>type = Deletion, content = Some ''b'', oldLineNumber = Some 2, newLineNumber = None\<rparr>,
              \<lparr>type = Addition, content = Some ''z'', oldLineNumber = None, newLineNumber = Some 2\<rparr>], oldIndex = 2, newIndex = 2\<rparr>"
      ?abc ?azc]
    by (simp add: d eval_nat_numeral)
  have substitution_end:
    "generateDiff_loop ?abc ?azc
       \<lparr>diff = [\<lparr>type = Deletion, content = Some ''b'', oldLineNumber = Some 2, newLineNumber = None\<rparr>,
              \<lparr>type = Addition, content = Some ''z'', oldLineNumber = None, newLineNumber = Some 2\<rparr>,
              \<lparr>type = Context, content = Some ''c'', oldLineNumber = Some 3, newLineNumber = Some 3\<rparr>], oldIndex = 3, newIndex = 3\<rparr> =
     [\<lparr>type = Deletion, content = Some ''b'', oldLineNumber = Some 2, newLineNumber = None\<rparr>,
      \<lparr>type = Addition, content = Some ''z'', oldLineNumber = None, newLineNumber = Some 2\<rparr>,
      \<lparr>type = Context, content = Some ''c'', oldLineNumber = Some 3, newLineNumber = Some 3\<rparr>]"
    using step [of "\<lparr>diff = [\<lparr>type = Deletion, content = Some ''b'', oldLineNumber = Some 2, newLineNumber = None\<rparr>,
              \<lparr>type = Addition, content = Some ''z'', oldLineNumber = None, newLineNumber = Some 2\<rparr>,
              \<lparr>type = Context, content = Some ''c'', oldLineNumber = Some 3, newLineNumber = Some 3\<rparr>], oldIndex = 3, newIndex = 3\<rparr>"
      ?abc ?azc]
    by (simp add: d loop_cond_def eval_nat_numeral)
  have unchanged_0:
    "loop_body ?ab ?axb
       \<lparr>diff = [], oldIndex = 0, newIndex = 0\<rparr> =
       \<lparr>diff = [\<lparr>type = Context, content = Some ''a'', oldLineNumber = Some 1, newLineNumber = Some 1\<rparr>], oldIndex = 1, newIndex = 1\<rparr>"
    "generateDiff_loop ?ab ?axb
       \<lparr>diff = [], oldIndex = 0, newIndex = 0\<rparr> =
     generateDiff_loop ?ab ?axb
       \<lparr>diff = [\<lparr>type = Context, content = Some ''a'', oldLineNumber = Some 1, newLineNumber = Some 1\<rparr>], oldIndex = 1, newIndex = 1\<rparr>"
    using step [of "\<lparr>diff = [], oldIndex = 0, newIndex = 0\<rparr>"
      ?ab ?axb]
    by (simp_all add: d eval_nat_numeral)
  have unchanged_1:
    "generateDiff_loop ?ab ?axb
       \<lparr>diff = [\<lparr>type = Context, content = Some ''a'', oldLineNumber = Some 1, newLineNumber = Some 1\<rparr>], oldIndex = 1, newIndex = 1\<rparr> =
     generateDiff_loop ?ab ?axb
       \<lparr>diff = [\<lparr>type = Context, content = Some ''a'', oldLineNumber = Some 1, newLineNumber = Some 1\<rparr>,
              \<lparr>type = Addition, content = Some ''x'', oldLineNumber = None, newLineNumber = Some 2\<rparr>], oldIndex = 1, newIndex = 2\<rparr>"
    using step [of "\<lparr>diff = [\<lparr>type = Context, content = Some ''a'', oldLineNumber = Some 1, newLineNumber = Some 1\<rparr>], oldIndex = 1, newIndex = 1\<rparr>"
      ?ab ?axb]
    by (simp add: d eval_nat_numeral)
  have unchanged_2:
    "generateDiff_loop ?ab ?axb
       \<lparr>diff = [\<lparr>type = Context, content = Some ''a'', oldLineNumber = Some 1, newLineNumber = Some 1\<rparr>,
              \<lparr>type = Addition, content = Some ''x'', oldLineNumber = None, newLineNumber = Some 2\<rparr>], oldIndex = 1, newIndex = 2\<rparr> =
     generateDiff_loop ?ab ?axb
       \<lparr>diff = [\<lparr>type = Context, content = Some ''a'', oldLineNumber = Some 1, newLineNumber = Some 1\<rparr>,
              \<lparr>type = Addition, content = Some ''x'', oldLineNumber = None, newLineNumber = Some 2\<rparr>,
              \<lparr>type = Context, content = Some ''b'', oldLineNumber = Some 2, newLineNumber = Some 3\<rparr>], oldIndex = 2, newIndex = 3\<rparr>"
    using step [of "\<lparr>diff = [\<lparr>type = Context, content = Some ''a'', oldLineNumber = Some 1, newLineNumber = Some 1\<rparr>,
              \<lparr>type = Addition, content = Some ''x'', oldLineNumber = None, newLineNumber = Some 2\<rparr>], oldIndex = 1, newIndex = 2\<rparr>"
      ?ab ?axb]
    by (simp add: d eval_nat_numeral)
  have unchanged_end:
    "generateDiff_loop ?ab ?axb
       \<lparr>diff = [\<lparr>type = Context, content = Some ''a'', oldLineNumber = Some 1, newLineNumber = Some 1\<rparr>,
              \<lparr>type = Addition, content = Some ''x'', oldLineNumber = None, newLineNumber = Some 2\<rparr>,
              \<lparr>type = Context, content = Some ''b'', oldLineNumber = Some 2, newLineNumber = Some 3\<rparr>], oldIndex = 2, newIndex = 3\<rparr> =
     [\<lparr>type = Context, content = Some ''a'', oldLineNumber = Some 1, newLineNumber = Some 1\<rparr>,
      \<lparr>type = Addition, content = Some ''x'', oldLineNumber = None, newLineNumber = Some 2\<rparr>,
      \<lparr>type = Context, content = Some ''b'', oldLineNumber = Some 2, newLineNumber = Some 3\<rparr>]"
    using step [of "\<lparr>diff = [\<lparr>type = Context, content = Some ''a'', oldLineNumber = Some 1, newLineNumber = Some 1\<rparr>,
              \<lparr>type = Addition, content = Some ''x'', oldLineNumber = None, newLineNumber = Some 2\<rparr>,
              \<lparr>type = Context, content = Some ''b'', oldLineNumber = Some 2, newLineNumber = Some 3\<rparr>], oldIndex = 2, newIndex = 3\<rparr>"
      ?ab ?axb]
    by (simp add: d loop_cond_def eval_nat_numeral)
  have old_exhausted:
    "generateDiff_loop ?a ?abc
       \<lparr>diff = [], oldIndex = 1, newIndex = 1\<rparr> =
     [\<lparr>type = Addition, content = Some ''b'', oldLineNumber = None, newLineNumber = Some 2\<rparr>,
      \<lparr>type = Addition, content = Some ''c'', oldLineNumber = None, newLineNumber = Some 3\<rparr>]"
    using step [of "\<lparr>diff = [], oldIndex = 1, newIndex = 1\<rparr>" ?a ?abc]
    by (simp add: d upt_conv_Cons eval_nat_numeral)
  have new_exhausted:
    "generateDiff_loop ?abc ?a
       \<lparr>diff = [], oldIndex = 1, newIndex = 1\<rparr> =
     [\<lparr>type = Deletion, content = Some ''b'', oldLineNumber = Some 2, newLineNumber = None\<rparr>,
      \<lparr>type = Deletion, content = Some ''c'', oldLineNumber = Some 3, newLineNumber = None\<rparr>]"
    using step [of "\<lparr>diff = [], oldIndex = 1, newIndex = 1\<rparr>" ?abc ?a]
    by (simp add: d upt_conv_Cons eval_nat_numeral)
  show ?thesis
    by (simp only: deletion_0 deletion_1 deletion_end addition_0 addition_1 addition_end substitution_0 substitution_1 substitution_end unchanged_0 unchanged_1 unchanged_2 unchanged_end old_exhausted new_exhausted simp_thms)
qed

text \<open>
  C3 (empty inputs), as the code has it. The guard \<open>!before || !after || !fileName\<close>
  takes the empty text for a missing input: with \<open>before = ""\<close> and \<open>after = ""\<close>
  the entry point ends in InvalidInput, whatever the name. \<open>generateDiff("", "")\<close>
  itself gives the single Context record of the empty line, which has no changes.
\<close>

theorem empty_inputs_invalid:
  "DiffViewer (JString []) (JString []) fileName = InvalidInput \<and>
   generateDiff [] [] =
     [\<lparr>type = Context, content = Some [], oldLineNumber = Some 1, newLineNumber = Some 1\<rparr>] \<and>
   list_ex (\<lambda>line. type line \<noteq> Context) (generateDiff [] []) = False"
  by (simp add: DiffViewer_def generateDiff_def js_split_Nil eval_loop)

text \<open>
  The claim as stated, that the outcome is NoDifferences, fails at \<open>before = ""\<close>,
  \<open>after = ""\<close>, \<open>fileName = "f"\<close>.
\<close>

theorem empty_inputs_counterexample:
  "DiffViewer (JString []) (JString []) (JString ''f'') \<noteq> NoDifferences"
  by (simp add: DiffViewer_def)

text \<open>
  C4 (identity), as the code has it. For every text \<open>x\<close> but the empty one, and a name
  that is not falsy, the entry point called with \<open>before = x\<close> and \<open>after = x\<close> ends
  in NoDifferences.
\<close>

theorem identity_no_differences:
  "x \<noteq> [] \<Longrightarrow> \<not> js_not fileName \<Longrightarrow>
   DiffViewer (JString x) (JString x) fileName = NoDifferences"
  by (simp add: DiffViewer_def try_block_def Let_def no_changes_identical)

theorem identity_no_differences_witness:
  "DiffViewer (JString (''a'' @ [newline] @ ''b'')) (JString (''a'' @ [newline] @ ''b''))
     (JString ''f'') = NoDifferences"
  using identity_no_differences [of "''a'' @ [newline] @ ''b''" "JString ''f''"]
  by simp

text \<open>
  The claim as stated, for every text, fails at the empty text: the outcome is
  InvalidInput.
\<close>

theorem identity_empty_text_counterexample:
  "DiffViewer (JString []) (JString []) (JString ''README.md'') = InvalidInput \<and>
   InvalidInput \<noteq> NoDifferences"
  by (simp add: DiffViewer_def)

text \<open>
  C5 (line numbers). In the records the aligner produces for any two line sequences,
  the old line numbers of the Context and Deletion records, in output order, are
  \<open>1, 2, ..., length oldLines\<close>, the new line numbers of the Context and Addition
  records are \<open>1, 2, ..., length newLines\<close>, an Addition record has no old line
  number and a Deletion record has no new line number.
\<close>

theorem line_numbers_contiguous:
  "map oldLineNumber (filter old_side (generateDiff_loop oldLines newLines initial_state)) =
     map Some [1..<Suc (length oldLines)] \<and>
   map newLineNumber (filter new_side (generateDiff_loop oldLines newLines initial_state)) =
     map Some [1..<Suc (length newLines)] \<and>
   (\<forall>r \<in> set (generateDiff_loop oldLines newLines initial_state).
      (type r = Addition \<longrightarrow> oldLineNumber r = None) \<and>
      (type r = Deletion \<longrightarrow> newLineNumber r = None))"
  using aligned_absent_numbers [of oldLines newLines]
  by (simp add: aligned_old_numbers aligned_new_numbers list_all_iff)

theorem line_numbers_contiguous_witness:
  "generateDiff_loop [''a'', ''x'', ''b''] [''a'', ''b'', ''c''] initial_state =
     [\<lparr>type = Context, content = Some ''a'', oldLineNumber = Some 1, newLineNumber = Some 1\<rparr>,
      \<lparr>type = Deletion, content = Some ''x'', oldLineNumber = Some 2, newLineNumber = None\<rparr>,
      \<lparr>type = Context, content = Some ''b'', oldLineNumber = Some 3, newLineNumber = Some 2\<rparr>,
      \<lparr>type = Addition, content = Some ''c'', oldLineNumber = None, newLineNumber = Some 3\<rparr>] \<and>
   map oldLineNumber (filter old_side
     (generateDiff_loop [''a'', ''x'', ''b''] [''a'', ''b'', ''c''] initial_state)) =
     [Some 1, Some 2, Some 3] \<and>
   map newLineNumber (filter new_side
     (generateDiff_loop [''a'', ''x'', ''b''] [''a'', ''b'', ''c''] initial_state)) =
     [Some 1, Some 2, Some 3]"
  using line_numbers_contiguous [of "[''a'', ''x'', ''b'']" "[''a'', ''b'', ''c'']"]
  by (simp add: eval_loop)

text \<open>
  C6 (counts). When the entry point ends in a diff result, its records are those of
  \<open>generateDiff\<close> on the two texts, the reported number of additions is the number of
  Addition records and the reported number of deletions is the number of Deletion
  records. A step that substitutes a line pair adds exactly one to each count.
\<close>

theorem counts_match_records:
  "(DiffViewer rawBefore rawAfter fileName = DiffResult name recs additions deletions \<longrightarrow>
      (\<exists>beforeStr afterStr. to_str rawBefore = Inr beforeStr \<and> to_str rawAfter = Inr afterStr \<and>
         recs = generateDiff beforeStr afterStr) \<and>
      additions = count_list (map type recs) Addition \<and>
      deletions = count_list (map type recs) Deletion) \<and>
   (oldIndex s < length oldLines \<and> newIndex s < length newLines \<and>
    oldLines ! oldIndex s \<noteq> newLines ! newIndex s \<and>
    \<not> (oldIndex s + 1 < length oldLines \<and>
       oldLines ! (oldIndex s + 1) = newLines ! newIndex s) \<and>
    \<not> (newIndex s + 1 < length newLines \<and>
       newLines ! (newIndex s + 1) = oldLines ! oldIndex s) \<longrightarrow>
      count_list (map type (diff (loop_body oldLines newLines s))) Addition =
        count_list (map type (diff s)) Addition + 1 \<and>
      count_list (map type (diff (loop_body oldLines newLines s))) Deletion =
        count_list (map type (diff s)) Deletion + 1)"
proof (intro conjI impI)
  assume r: "DiffViewer rawBefore rawAfter fileName = DiffResult name recs additions deletions"
  from DiffViewer_DiffResult [OF r]
  show "\<exists>beforeStr afterStr. to_str rawBefore = Inr beforeStr \<and> to_str rawAfter = Inr afterStr \<and>
         recs = generateDiff beforeStr afterStr"
    by blast
  from DiffViewer_DiffResult [OF r]
  show "additions = count_list (map type recs) Addition"
    by (auto simp: length_filter_type)
  from DiffViewer_DiffResult [OF r]
  show "deletions = count_list (map type recs) Deletion"
    by (auto simp: length_filter_type)
next
  assume a: "oldIndex s < length oldLines \<and> newIndex s < length newLines \<and>
    oldLines ! oldIndex s \<noteq> newLines ! newIndex s \<and>
    \<not> (oldIndex s + 1 < length oldLines \<and>
       oldLines ! (oldIndex s + 1) = newLines ! newIndex s) \<and>
    \<not> (newIndex s + 1 < length newLines \<and>
       newLines ! (newIndex s + 1) = oldLines ! oldIndex s)"
  then show "count_list (map type (diff (loop_body oldLines newLines s))) Addition =
        count_list (map type (diff s)) Addition + 1"
    by (simp add: loop_body_def at_def)
  from a show "count_list (map type (diff (loop_body oldLines newLines s))) Deletion =
        count_list (map type (diff s)) Deletion + 1"
    by (simp add: loop_body_def at_def)
qed

theorem counts_match_records_witness:
  "DiffViewer (JString (''a'' @ [newline] @ ''b'' @ [newline] @ ''c''))
              (JString (''a'' @ [newline] @ ''z'' @ [newline] @ ''c'')) (JString ''f'') =
   DiffResult (JString ''f'')
     [\<lparr>type = Context, content = Some ''a'', oldLineNumber = Some 1, newLineNumber = Some 1\<rparr>,
      \<lparr>type = Deletion, content = Some ''b'', oldLineNumber = Some 2, newLineNumber = None\<rparr>,
      \<lparr>type = Addition, content = Some ''z'', oldLineNumber = None, newLineNumber = Some 2\<rparr>,
      \<lparr>type = Context, content = Some ''c'', oldLineNumber = Some 3, newLineNumber = Some 3\<rparr>]
     1 1 \<and>
   count_list (map type
     [\<lparr>type = Context, content = Some ''a'', oldLineNumber = Some 1, newLineNumber = Some 1\<rparr>,
      \<lparr>type = Deletion, content = Some ''b'', oldLineNumber = Some 2, newLineNumber = None\<rparr>,
      \<lparr>type = Addition, content = Some ''z'', oldLineNumber = None, newLineNumber = Some 2\<rparr>,
      \<lparr>type = Context, content = Some ''c'', oldLineNumber = Some 3, newLineNumber = Some 3\<rparr>])
     Addition = 1 \<and>
   count_list (map type (diff (loop_body [''a'', ''b'', ''c''] [''a'', ''z'', ''c'']
     \<lparr>diff = [], oldIndex = 1, newIndex = 1\<rparr>))) Deletion = 1"
proof -
  let ?ol = "[''a'', ''b'', ''c'']" and ?nl = "[''a'', ''z'', ''c'']"
  let ?s = "\<lparr>diff = [], oldIndex = 1, newIndex = 1\<rparr>"
  let ?recs = "[\<lparr>type = Context, content = Some ''a'', oldLineNumber = Some 1, newLineNumber = Some 1\<rparr>,
      \<lparr>type = Deletion, content = Some ''b'', oldLineNumber = Some 2, newLineNumber = None\<rparr>,
      \<lparr>type = Addition, content = Some ''z'', oldLineNumber = None, newLineNumber = Some 2\<rparr>,
      \<lparr>type = Context, content = Some ''c'', oldLineNumber = Some 3, newLineNumber = Some 3\<rparr>]"
  note t = counts_match_records [of
      "JString (''a'' @ [newline] @ ''b'' @ [newline] @ ''c'')"
      "JString (''a'' @ [newline] @ ''z'' @ [newline] @ ''c'')" "JString ''f''" "JString ''f''"
      ?recs 1 1 ?s ?ol ?nl]
  have h: "oldIndex ?s < length ?ol \<and> newIndex ?s < length ?nl \<and>
    ?ol ! oldIndex ?s \<noteq> ?nl ! newIndex ?s \<and>
    \<not> (oldIndex ?s + 1 < length ?ol \<and> ?ol ! (oldIndex ?s + 1) = ?nl ! newIndex ?s) \<and>
    \<not> (newIndex ?s + 1 < length ?nl \<and> ?nl ! (newIndex ?s + 1) = ?ol ! oldIndex ?s)"
    by simp
  from t substitution_example have "1 = count_list (map type ?recs) Addition"
    by blast
  moreover from t h
  have "count_list (map type (diff (loop_body ?ol ?nl ?s))) Deletion =
        count_list (map type (diff ?s)) Deletion + 1"
    by blast
  ultimately show ?thesis using substitution_example by simp
qed

text \<open>
  C7 (missing input). If \<open>before\<close>, \<open>after\<close> or \<open>fileName\<close> is \<open>null\<close>,
  \<open>undefined\<close> or the empty text, the entry point ends in InvalidInput. The other
  two inputs are arbitrary, also values that cannot be coerced to text: the check comes
  first, and the outcome is a result, not an error thrown.
\<close>

theorem missing_input_invalid:
  "rawBefore \<in> {JNull, JUndefined, JString []} \<or>
   rawAfter \<in> {JNull, JUndefined, JString []} \<or>
   fileName \<in> {JNull, JUndefined, JString []} \<Longrightarrow>
   DiffViewer rawBefore rawAfter fileName = InvalidInput"
  by (auto simp: DiffViewer_def)

theorem missing_input_invalid_witness:
  "DiffViewer JNull (JString ''x'') (JString ''f'') = InvalidInput \<and>
   DiffViewer JUndefined (JOther True (Inl (TypeError ''Cannot convert object to primitive value'')))
     (JString ''f'') = InvalidInput \<and>
   DiffViewer (JString ''x'') (JString ''y'') (JString []) = InvalidInput"
  using missing_input_invalid [of JNull "JString ''x''" "JString ''f''"]
    missing_input_invalid [of JUndefined
      "JOther True (Inl (TypeError ''Cannot convert object to primitive value''))" "JString ''f''"]
    missing_input_invalid [of "JString ''x''" "JString ''y''" "JString []"]
  by simp

text \<open>
  C8 (computation failed). The code does not do what the claim says. When
  \<open>String(before)\<close> throws, the \<open>catch\<close> clause reads \<open>beforeStr\<close>, which is not
  in its scope, and a ReferenceError leaves \<open>DiffViewer\<close>: here for a \<open>before\<close>
  that is an object without a conversion to text.
\<close>

theorem catch_clause_throws:
  "DiffViewer (JOther True (Inl (TypeError ''Cannot convert object to primitive value'')))
     (JString ''x'') (JString ''f'') =
   Throws (ReferenceError ''beforeStr is not defined'')"
  by (simp add: DiffViewer_def try_block_def catch_block_def read_identifier_def catch_scope_def)


text \<open>
  C10 (termination). Every pass through the body of the loop moves each cursor by at
  most one and at least one of them by one. From the initial state the loop condition
  fails after some \<open>k\<close> passes, with \<open>k\<close> at most the number of old lines plus the
  number of new lines; the loop returns the records of that state, and there are at
  most that many records.
\<close>

theorem loop_terminates_within_bound:
  "(loop_cond oldLines newLines s \<longrightarrow>
      oldIndex s \<le> oldIndex (loop_body oldLines newLines s) \<and>
      oldIndex (loop_body oldLines newLines s) \<le> oldIndex s + 1 \<and>
      newIndex s \<le> newIndex (loop_body oldLines newLines s) \<and>
      newIndex (loop_body oldLines newLines s) \<le> newIndex s + 1 \<and>
      oldIndex s + newIndex s <
        oldIndex (loop_body oldLines newLines s) + newIndex (loop_body oldLines newLines s)) \<and>
   (\<exists>k \<le> length oldLines + length newLines.
      \<not> loop_cond oldLines newLines ((loop_body oldLines newLines ^^ k) initial_state) \<and>
      (\<forall>j<k. loop_cond oldLines newLines ((loop_body oldLines newLines ^^ j) initial_state)) \<and>
      generateDiff_loop oldLines newLines initial_state =
        diff ((loop_body oldLines newLines ^^ k) initial_state)) \<and>
   length (generateDiff_loop oldLines newLines initial_state) \<le>
     length oldLines + length newLines"
proof (intro conjI impI)
  show "\<exists>k \<le> length oldLines + length newLines.
      \<not> loop_cond oldLines newLines ((loop_body oldLines newLines ^^ k) initial_state) \<and>
      (\<forall>j<k. loop_cond oldLines newLines ((loop_body oldLines newLines ^^ j) initial_state)) \<and>
      generateDiff_loop oldLines newLines initial_state =
        diff ((loop_body oldLines newLines ^^ k) initial_state)"
    using loop_iterations [of oldLines initial_state newLines]
    by (simp add: initial_state_def)
  show "length (generateDiff_loop oldLines newLines initial_state) \<le>
     length oldLines + length newLines"
    using aligned_length [of oldLines newLines] by simp
qed (insert loop_body_advances [of oldLines newLines s], simp_all)

theorem loop_terminates_within_bound_witness:
  "loop_cond [''a'', ''b'', ''c''] [''a'', ''z'', ''c''] initial_state \<and>
   oldIndex (loop_body [''a'', ''b'', ''c''] [''a'', ''z'', ''c''] initial_state) = 1 \<and>
   newIndex (loop_body [''a'', ''b'', ''c''] [''a'', ''z'', ''c''] initial_state) = 1 \<and>
   (\<exists>k \<le> 6.
      \<not> loop_cond [''a'', ''b'', ''c''] [''a'', ''z'', ''c'']
          ((loop_body [''a'', ''b'', ''c''] [''a'', ''z'', ''c''] ^^ k) initial_state) \<and>
      generateDiff_loop [''a'', ''b'', ''c''] [''a'', ''z'', ''c''] initial_state =
        diff ((loop_body [''a'', ''b'', ''c''] [''a'', ''z'', ''c''] ^^ k) initial_state)) \<and>
   length (generateDiff_loop [''a'', ''b'', ''c''] [''a'', ''z'', ''c''] initial_state) \<le> 6"
proof -
  note t = loop_terminates_within_bound [of "[''a'', ''b'', ''c'']" "[''a'', ''z'', ''c'']"
      initial_state]
  have c: "loop_cond [''a'', ''b'', ''c''] [''a'', ''z'', ''c''] initial_state"
    by (simp add: loop_cond_def initial_state_def)
  have "oldIndex (loop_body [''a'', ''b'', ''c''] [''a'', ''z'', ''c''] initial_state) = 1"
       "newIndex (loop_body [''a'', ''b'', ''c''] [''a'', ''z'', ''c''] initial_state) = 1"
    by (simp_all add: loop_body_def at_def initial_state_def)
  moreover have "\<exists>k \<le> 6.
      \<not> loop_cond [''a'', ''b'', ''c''] [''a'', ''z'', ''c'']
          ((loop_body [''a'', ''b'', ''c''] [''a'', ''z'', ''c''] ^^ k) initial_state) \<and>
      generateDiff_loop [''a'', ''b'', ''c''] [''a'', ''z'', ''c''] initial_state =
        diff ((loop_body [''a'', ''b'', ''c''] [''a'', ''z'', ''c''] ^^ k) initial_state)"
  proof -
    from t obtain k where k: "k \<le> length [''a'', ''b'', ''c''] + length [''a'', ''z'', ''c'']"
      "\<not> loop_cond [''a'', ''b'', ''c''] [''a'', ''z'', ''c'']
          ((loop_body [''a'', ''b'', ''c''] [''a'', ''z'', ''c''] ^^ k) initial_state)"
      "generateDiff_loop [''a'', ''b'', ''c''] [''a'', ''z'', ''c''] initial_state =
        diff ((loop_body [''a'', ''b'', ''c''] [''a'', ''z'', ''c''] ^^ k) initial_state)"
      by blast
    from k(1) have "k \<le> 6" by simp
    with k(2,3) show ?thesis by blast
  qed
  moreover from t
  have "length (generateDiff_loop [''a'', ''b'', ''c''] [''a'', ''z'', ''c''] initial_state) \<le> 6"
    by simp
  ultimately show ?thesis using c by blast
qed

end
